theory Spec2Isabelle
  imports Complex_Main "HOL-Library.Sublist"
begin

section \<open>Python values and exceptions\<close>

text \<open>
  Python numbers are modelled exactly: \<open>int\<close> values as HOL integers and \<open>float\<close>
  values as real numbers, so rounding, overflow and underflow of the binary64 format are
  outside the model. Exceptions are values of a sum type; \<open>Inl\<close> carries the exception.
\<close>

datatype error = ValueError | IndexError | ZeroDivisionError

text \<open>Python's true division \<open>a / b\<close> raises \<open>ZeroDivisionError\<close> on a zero divisor.\<close>

definition truediv :: "real \<Rightarrow> real \<Rightarrow> error + real" where
  "truediv a b = (if b = 0 then Inl ZeroDivisionError else Inr (a / b))"

text \<open>A \<open>for x in xs: body\<close> loop over a state; an exception in the body leaves the loop.\<close>

fun for_loop :: "'a list \<Rightarrow> ('a \<Rightarrow> 's \<Rightarrow> error + 's) \<Rightarrow> 's \<Rightarrow> error + 's" where
  "for_loop [] body st = Inr st"
| "for_loop (x # xs) body st =
     (case body x st of Inl e \<Rightarrow> Inl e | Inr st' \<Rightarrow> for_loop xs body st')"

section \<open>Ground-truth derivation: \<open>video_grounding/dataset_prep.py\<close>\<close>

text \<open>The three loop variables \<open>best_layer\<close>, \<open>best_segment\<close>, \<open>best_iou\<close>.\<close>

record best =
  best_layer :: nat
  best_segment :: nat
  best_iou :: real

text \<open>
  The body of the inner loop \<open>for segment_id in range(num_segments)\<close> (lines 48 to 60);
  \<open>uni\<close> is the source's variable \<open>union\<close>.
\<close>

definition segment_body ::
  "real \<Rightarrow> real \<Rightarrow> nat \<Rightarrow> real \<Rightarrow> nat \<Rightarrow> best \<Rightarrow> error + best" where
  "segment_body start_time end_time layer segment_duration segment_id b =
     (let segment_start = real segment_id * segment_duration;
          segment_end = (real segment_id + 1) * segment_duration;
          intersection_start = max start_time segment_start;
          intersection_end = min end_time segment_end
      in if intersection_end > intersection_start then
           (let intersection = intersection_end - intersection_start;
                uni = max end_time segment_end - min start_time segment_start
            in case truediv intersection uni of
                 Inl e \<Rightarrow> Inl e
               | Inr iou \<Rightarrow>
                   if iou > best_iou b \<or> (iou \<ge> 0.7 \<and> layer > best_layer b)
                   then Inr \<lparr>best_layer = layer, best_segment = segment_id, best_iou = iou\<rparr>
                   else Inr b)
         else Inr b)"

text \<open>The body of the outer loop \<open>for layer in range(max_layer + 1)\<close> (lines 45 to 60).\<close>

definition layer_body :: "real \<Rightarrow> real \<Rightarrow> real \<Rightarrow> nat \<Rightarrow> best \<Rightarrow> error + best" where
  "layer_body start_time end_time video_duration_sec layer b =
     (let num_segments = (2::nat) ^ layer
      in case truediv video_duration_sec (real num_segments) of
           Inl e \<Rightarrow> Inl e
         | Inr segment_duration \<Rightarrow>
             for_loop [0..<num_segments]
               (segment_body start_time end_time layer segment_duration) b)"

definition compute_layer_segment :: "real \<Rightarrow> real \<Rightarrow> real \<Rightarrow> error + nat \<times> nat" where
  "compute_layer_segment start_time end_time video_duration_min =
     (let video_duration_sec = video_duration_min * 60;
          max_layer = (4::nat)
      in case for_loop [0..<max_layer + 1]
                (layer_body start_time end_time video_duration_sec)
                \<lparr>best_layer = 0, best_segment = 0, best_iou = 0\<rparr> of
           Inl e \<Rightarrow> Inl e
         | Inr b \<Rightarrow> Inr (best_layer b, best_segment b))"

section \<open>Python strings\<close>

text \<open>
  A Python \<open>str\<close> is a sequence of code points. It is modelled as a \<open>string\<close> whose
  characters are the code points \<open>0\<close> to \<open>255\<close>, so \<open>length\<close> counts code points as
  \<open>len\<close> does; code points above \<open>255\<close> are outside the model.
\<close>

text \<open>\<open>sub in s\<close> on strings: \<open>sub\<close> occurs in \<open>s\<close> as a contiguous substring.\<close>

definition py_in :: "string \<Rightarrow> string \<Rightarrow> bool" where
  "py_in sub s = sublist sub s"

text \<open>
  \<open>str.isspace\<close> on one code point below \<open>256\<close>: tab to carriage return, the four
  separators \<open>0x1C\<close> to \<open>0x1F\<close>, space, \<open>0x85\<close> and \<open>0xA0\<close>.
\<close>

definition is_space :: "char \<Rightarrow> bool" where
  "is_space c =
     (let n = (of_char c :: nat)
      in (9 \<le> n \<and> n \<le> 13) \<or> (28 \<le> n \<and> n \<le> 32) \<or> n = 133 \<or> n = 160)"

text \<open>\<open>s.strip()\<close>: whitespace removed from both ends.\<close>

definition py_strip :: "string \<Rightarrow> string" where
  "py_strip s = rev (dropWhile is_space (rev (dropWhile is_space s)))"

text \<open>
  \<open>s.split(sep)\<close> for a one-character separator: the pieces between the separators,
  empty pieces kept, so the result is never empty (\<open>''.split(',') == ['']\<close>).
\<close>

fun py_split :: "char \<Rightarrow> string \<Rightarrow> string list" where
  "py_split sep [] = [[]]"
| "py_split sep (c # cs) =
     (if c = sep then [] # py_split sep cs
      else (case py_split sep cs of
              [] \<Rightarrow> [[c]]
            | w # ws \<Rightarrow> (c # w) # ws))"

text \<open>\<open>xs[i]\<close> for a non-negative index: \<open>IndexError\<close> beyond the end.\<close>

definition getitem :: "'a list \<Rightarrow> nat \<Rightarrow> error + 'a" where
  "getitem xs i = (if i < length xs then Inr (xs ! i) else Inl IndexError)"

text \<open>
  \<open>int(s)\<close> on a string, base ten: surrounding whitespace is ignored, then an optional
  sign, then decimal digits in which single underscores may stand between two digits.
  Anything else raises \<open>ValueError\<close>. The whitespace \<open>int\<close> ignores is narrower than
  that of \<open>strip\<close>: it leaves the separators \<open>0x1C\<close> to \<open>0x1F\<close> in place. (The
  interpreter's optional limit on the number of digits is not modelled.)
\<close>

definition is_int_space :: "char \<Rightarrow> bool" where
  "is_int_space c =
     (let n = (of_char c :: nat)
      in (9 \<le> n \<and> n \<le> 13) \<or> n = 32 \<or> n = 133 \<or> n = 160)"

definition is_digit :: "char \<Rightarrow> bool" where
  "is_digit c = (48 \<le> (of_char c :: nat) \<and> (of_char c :: nat) \<le> 57)"

text \<open>
  \<open>digits_value prev acc s\<close>: \<open>prev\<close> tells whether the character before \<open>s\<close> was a
  digit, \<open>acc\<close> is the value read so far.
\<close>

fun digits_value :: "bool \<Rightarrow> nat \<Rightarrow> string \<Rightarrow> nat option" where
  "digits_value prev acc [] = (if prev then Some acc else None)"
| "digits_value prev acc (c # cs) =
     (if is_digit c then digits_value True (10 * acc + (of_char c - 48)) cs
      else if c = CHR ''_'' \<and> prev then digits_value False acc cs
      else None)"

definition py_int :: "string \<Rightarrow> error + int" where
  "py_int s =
     (case rev (dropWhile is_int_space (rev (dropWhile is_int_space s))) of
        [] \<Rightarrow> Inl ValueError
      | c # cs \<Rightarrow>
          if c = CHR ''-'' then
            (case digits_value False 0 cs of
               None \<Rightarrow> Inl ValueError
             | Some n \<Rightarrow> Inr (- int n))
          else if c = CHR ''+'' then
            (case digits_value False 0 cs of
               None \<Rightarrow> Inl ValueError
             | Some n \<Rightarrow> Inr (int n))
          else
            (case digits_value False 0 (c # cs) of
               None \<Rightarrow> Inl ValueError
             | Some n \<Rightarrow> Inr (int n)))"

text \<open>
  \<open>2 ** n\<close> for an integer \<open>n\<close>: the integer \<open>2^n\<close> when \<open>n \<ge> 0\<close>, the float
  \<open>1 / 2^(-n)\<close> when \<open>n < 0\<close>.
\<close>

definition pow2 :: "int \<Rightarrow> real" where
  "pow2 n = (if 0 \<le> n then 2 ^ nat n else 1 / 2 ^ nat (- n))"

text \<open>Sequencing of two computations that may raise.\<close>

definition and_then :: "error + 'a \<Rightarrow> ('a \<Rightarrow> error + 'b) \<Rightarrow> error + 'b" where
  "and_then m f = (case m of Inl e \<Rightarrow> Inl e | Inr x \<Rightarrow> f x)"

subsection \<open>The two regular expressions\<close>

text \<open>
  \<open>find_first sub s\<close> cuts \<open>s\<close> at the leftmost occurrence of \<open>sub\<close>: the text before
  it and the text after it.
\<close>

fun find_first :: "string \<Rightarrow> string \<Rightarrow> (string \<times> string) option" where
  "find_first sub [] = (if sub = [] then Some ([], []) else None)"
| "find_first sub (c # cs) =
     (if prefix sub (c # cs) then Some ([], drop (length sub) (c # cs))
      else (case find_first sub cs of
              None \<Rightarrow> None
            | Some (before, after) \<Rightarrow> Some (c # before, after)))"

text \<open>
  \<open>re.search(r'<think>(.*?)</think>', s, re.DOTALL)\<close>, group 1. The search takes the
  leftmost start; with \<open>DOTALL\<close> the lazy \<open>.*?\<close> runs over any characters up to the first
  closing tag behind the opening tag. If no closing tag follows the leftmost opening tag,
  none follows a later one either, and there is no match.
\<close>

definition search_think :: "string \<Rightarrow> string option" where
  "search_think s =
     (case find_first ''<think>'' s of
        None \<Rightarrow> None
      | Some (before, rest) \<Rightarrow>
          (case find_first ''</think>'' rest of
             None \<Rightarrow> None
           | Some (content, after) \<Rightarrow> Some content))"

text \<open>
  \<open>re.match\<close> of \<open><grounding>([^<]+)</grounding>\<close> at the start of \<open>s\<close>, group 1. The
  greedy \<open>[^<]+\<close> takes the longest run without \<open><\<close>; a shorter run is followed by a
  character other than \<open><\<close>, so backtracking cannot succeed where the longest run fails.
\<close>

definition match_grounding :: "string \<Rightarrow> string option" where
  "match_grounding s =
     (if prefix ''<grounding>'' s then
        (let rest = drop (length ''<grounding>'') s;
             content = takeWhile (\<lambda>c. c \<noteq> CHR ''<'') rest;
             after = dropWhile (\<lambda>c. c \<noteq> CHR ''<'') rest
         in if content \<noteq> [] \<and> prefix ''</grounding>'' after then Some content else None)
      else None)"

text \<open>\<open>re.search(r'<grounding>([^<]+)</grounding>', s)\<close>, group 1: the leftmost match.\<close>

fun search_grounding :: "string \<Rightarrow> string option" where
  "search_grounding [] = None"
| "search_grounding (c # cs) =
     (case match_grounding (c # cs) of
        Some content \<Rightarrow> Some content
      | None \<Rightarrow> search_grounding cs)"

section \<open>Reward scoring: \<open>verl/utils/reward_score/video_grounding.py\<close>\<close>

definition check_format :: "string \<Rightarrow> real" where
  "check_format response_str =
     (let has_thinking = (py_in ''<think>'' response_str \<and> py_in ''</think>'' response_str);
          has_grounding =
            (py_in ''<grounding>'' response_str \<and> py_in ''</grounding>'' response_str);
          thinking_quality =
            (case search_think response_str of
               None \<Rightarrow> 0
             | Some content \<Rightarrow> min 1 (real (length (py_strip content)) / 200))
      in if has_thinking \<and> has_grounding then 0.6 + 0.4 * thinking_quality
         else if has_thinking then 0.3
         else if has_grounding then 0.5
         else 0)"

text \<open>The body of the \<open>try\<close> block of \<open>evaluate_grounding\<close> (lines 86 to 112).\<close>

definition evaluate_grounding_body :: "string list \<Rightarrow> string list \<Rightarrow> error + real" where
  "evaluate_grounding_body pred_parts gt_parts =
     and_then (and_then (getitem pred_parts 0) py_int) (\<lambda>pred_layer.
     and_then (and_then (getitem pred_parts 1) py_int) (\<lambda>pred_segment.
     and_then (and_then (getitem gt_parts 0) py_int) (\<lambda>gt_layer.
     and_then (and_then (getitem gt_parts 1) py_int) (\<lambda>gt_segment.
       if pred_layer = gt_layer \<and> pred_segment = gt_segment then Inr 1
       else if pred_layer = gt_layer then
         (let num_segments = pow2 gt_layer;
              segment_distance =
                min (real_of_int \<bar>pred_segment - gt_segment\<bar>)
                    (num_segments - real_of_int \<bar>pred_segment - gt_segment\<bar>)
          in and_then (truediv segment_distance (num_segments / 2)) (\<lambda>q.
               (let segment_score = max 0 (1 - q)
                in Inr (0.8 * segment_score))))
       else
         (let layer_diff = \<bar>pred_layer - gt_layer\<bar>;
              layer_score = max 0 (1 - real_of_int layer_diff / 4)
          in Inr (0.4 * layer_score))))))"

text \<open>\<open>except (ValueError, IndexError): return 0.0\<close>; any other exception passes.\<close>

definition evaluate_grounding :: "string list \<Rightarrow> string list \<Rightarrow> error + real" where
  "evaluate_grounding pred_parts gt_parts =
     (case evaluate_grounding_body pred_parts gt_parts of
        Inl ValueError \<Rightarrow> Inr 0
      | Inl IndexError \<Rightarrow> Inr 0
      | Inl e \<Rightarrow> Inl e
      | Inr score \<Rightarrow> Inr score)"

definition evaluate_sampling_rate :: "string \<Rightarrow> error + real" where
  "evaluate_sampling_rate sampling_rate_str =
     (case py_int sampling_rate_str of
        Inl ValueError \<Rightarrow> Inr 0
      | Inl e \<Rightarrow> Inl e
      | Inr rate \<Rightarrow>
          if rate \<le> 0 then Inr 0
          else if rate \<le> 5 then Inr 1
          else if rate \<le> 10 then Inr 0.8
          else if rate \<le> 30 then Inr 0.5
          else Inr 0.2)"

text \<open>The body of the \<open>try\<close> block of \<open>video_grounding\<close> (lines 33 to 47).\<close>

definition video_grounding_body :: "real \<Rightarrow> string \<Rightarrow> string \<Rightarrow> error + real" where
  "video_grounding_body format_score pred_content gt_content =
     (let pred_parts = map py_strip (py_split CHR '','' pred_content);
          gt_parts = map py_strip (py_split CHR '','' gt_content)
      in if length pred_parts \<noteq> 3 \<or> length gt_parts \<noteq> 3 then Inr (0.2 * format_score)
         else
           and_then (evaluate_grounding pred_parts gt_parts) (\<lambda>grounding_score.
           and_then (and_then (getitem pred_parts 2) evaluate_sampling_rate) (\<lambda>sampling_score.
             (let final_score =
                    0.3 * format_score + 0.5 * grounding_score + 0.2 * sampling_score
              in Inr final_score))))"

text \<open>
  \<open>video_grounding\<close> itself: \<open>except Exception\<close> turns every exception of the \<open>try\<close>
  block into \<open>0.1 * format_score\<close>, and nothing outside the block raises, so the function
  returns a number on every pair of strings.
\<close>

definition video_grounding :: "string \<Rightarrow> string \<Rightarrow> real" where
  "video_grounding predict_str ground_truth =
     (let format_score = check_format predict_str
      in if format_score = 0 then 0
         else
           (let pred_match = search_grounding predict_str;
                gt_match = search_grounding ground_truth
            in case (pred_match, gt_match) of
                 (Some pred_content, Some gt_content) \<Rightarrow>
                   (case video_grounding_body format_score pred_content gt_content of
                      Inl e \<Rightarrow> 0.1 * format_score
                    | Inr score \<Rightarrow> score)
               | _ \<Rightarrow> 0.1 * format_score))"

section \<open>The specification's resolver\<close>

text \<open>
  The resolver as the specification words it: the overlap ratio of the interval and a
  segment (zero without overlap), the segments of a layer, the candidates in iteration
  order, the replacement rule, and the search as a fold over the candidates.
\<close>

definition spec_iou :: "real \<Rightarrow> real \<Rightarrow> real \<Rightarrow> real \<Rightarrow> real" where
  "spec_iou start_t end_t seg_start seg_end =
     (let intersection = max 0 (min end_t seg_end - max start_t seg_start);
          uni = max end_t seg_end - min start_t seg_start
      in if intersection = 0 then 0 else intersection / uni)"

definition segment_bounds :: "nat \<Rightarrow> nat \<Rightarrow> real \<Rightarrow> real \<times> real" where
  "segment_bounds layer segment_id duration =
     (let segment_width = duration / 2 ^ layer
      in (real segment_id * segment_width, (real segment_id + 1) * segment_width))"

definition spec_candidates :: "(nat \<times> nat) list" where
  "spec_candidates = concat (map (\<lambda>layer. map (Pair layer) [0..<2 ^ layer]) [0..<5])"

definition spec_replace :: "best \<Rightarrow> nat \<Rightarrow> real \<Rightarrow> bool" where
  "spec_replace b layer iou = (iou > best_iou b \<or> (iou \<ge> 0.7 \<and> layer > best_layer b))"

definition spec_select :: "real \<Rightarrow> real \<Rightarrow> real \<Rightarrow> best \<Rightarrow> nat \<times> nat \<Rightarrow> best" where
  "spec_select start_t end_t duration b c =
     (case c of (layer, segment_id) \<Rightarrow>
        (case segment_bounds layer segment_id duration of (seg_start, seg_end) \<Rightarrow>
           (let iou = spec_iou start_t end_t seg_start seg_end
            in if spec_replace b layer iou
               then \<lparr>best_layer = layer, best_segment = segment_id, best_iou = iou\<rparr>
               else b)))"

definition spec_resolver :: "real \<Rightarrow> real \<Rightarrow> real \<Rightarrow> nat \<times> nat" where
  "spec_resolver start_t end_t duration_min =
     (let b = foldl (spec_select start_t end_t (duration_min * 60))
                \<lparr>best_layer = 0, best_segment = 0, best_iou = 0\<rparr> spec_candidates
      in (best_layer b, best_segment b))"

text \<open>
  A candidate overlaps the interval when their intersection has strictly positive length.
\<close>

definition positive_overlap :: "real \<Rightarrow> real \<Rightarrow> real \<Rightarrow> nat \<times> nat \<Rightarrow> bool" where
  "positive_overlap start_t end_t duration c =
     (case c of (layer, segment_id) \<Rightarrow>
        (case segment_bounds layer segment_id duration of (seg_start, seg_end) \<Rightarrow>
           min end_t seg_end - max start_t seg_start > 0))"

text \<open>The loop invariant of the search: the best overlap ratio is never negative.\<close>

definition nonneg_iou :: "best \<Rightarrow> bool" where
  "nonneg_iou b = (0 \<le> best_iou b)"

section \<open>The specification's view of the response text\<close>

text \<open>
  Some substring of \<open>s\<close> matches the pattern \<open><grounding>\<close>, one or more characters
  other than \<open><\<close>, \<open></grounding>\<close>.
\<close>

definition grounding_pattern_occurs :: "string \<Rightarrow> bool" where
  "grounding_pattern_occurs s =
     (\<exists>before content after.
        s = before @ ''<grounding>'' @ content @ ''</grounding>'' @ after \<and>
        content \<noteq> [] \<and> CHR ''<'' \<notin> set content)"

text \<open>
  The length of the trimmed thinking content that the pattern extracts; \<open>0\<close> when the
  pattern extracts nothing.
\<close>

definition thinking_length :: "string \<Rightarrow> nat" where
  "thinking_length s =
     (case search_think s of None \<Rightarrow> 0 | Some content \<Rightarrow> length (py_strip content))"

section \<open>The resolver computes the specification's search\<close>

lemma for_loop_foldl:
  assumes "\<And>x st. x \<in> set xs \<Longrightarrow> I st \<Longrightarrow> body x st = Inr (f st x) \<and> I (f st x)"
    and "I st"
  shows "for_loop xs body st = Inr (foldl f st xs) \<and> I (foldl f st xs)"
  using assms
proof (induction xs arbitrary: st)
  case Nil
  then show ?case by simp
next
  case (Cons x xs)
  have step: "body x st = Inr (f st x)" "I (f st x)"
    using Cons.prems(1)[of x st] Cons.prems(2) by simp_all
  have "for_loop xs body (f st x) = Inr (foldl f (f st x) xs) \<and> I (foldl f (f st x) xs)"
    by (rule Cons.IH) (use Cons.prems(1) step(2) in auto)
  with step show ?case by simp
qed

lemma union_ge_intersection:
  fixes s e a b :: real
  assumes "min e b > max s a"
  shows "max e b - min s a \<ge> min e b - max s a" "min e b - max s a > 0"
  using assms by (auto simp: min_def max_def split: if_splits)

lemma spec_iou_overlap:
  assumes "min e c > max s a"
  shows "spec_iou s e a c = (min e c - max s a) / (max e c - min s a)"
proof -
  have "max 0 (min e c - max s a) = min e c - max s a" "min e c - max s a \<noteq> 0"
    using assms by linarith+
  then show ?thesis unfolding spec_iou_def Let_def by (simp only: if_False)
qed

lemma spec_iou_disjoint:
  assumes "\<not> min e c > max s a"
  shows "spec_iou s e a c = 0"
proof -
  have "max 0 (min e c - max s a) = 0"
    using assms by linarith
  then show ?thesis unfolding spec_iou_def Let_def by simp
qed

lemma foldl_concat_nested: "foldl f a (concat xss) = foldl (foldl f) a xss"
  by (induction xss arbitrary: a) simp_all

lemma segment_body_spec:
  assumes "0 \<le> best_iou b"
  shows "segment_body s e layer (dur / 2 ^ layer) i b = Inr (spec_select s e dur b (layer, i))
         \<and> 0 \<le> best_iou (spec_select s e dur b (layer, i))"
proof -
  define w where "w = dur / 2 ^ layer"
  define a where "a = real i * w"
  define c where "c = (real i + 1) * w"
  have sb: "segment_bounds layer i dur = (a, c)"
    by (simp add: segment_bounds_def w_def a_def c_def)
  show ?thesis
  proof (cases "min e c > max s a")
    case True
    define q where "q = (min e c - max s a) / (max e c - min s a)"
    from union_ge_intersection[OF True]
    have u: "max e c - min s a \<ge> min e c - max s a" and p: "min e c - max s a > 0" .
    then have upos: "max e c - min s a > 0" by linarith
    then have une: "max e c - min s a \<noteq> 0" by simp
    have q: "q > 0"
      unfolding q_def using p upos by simp
    have code: "segment_body s e layer w i b =
      (if spec_replace b layer q
       then Inr \<lparr>best_layer = layer, best_segment = i, best_iou = q\<rparr>
       else Inr b)"
      unfolding segment_body_def Let_def a_def[symmetric] c_def[symmetric] truediv_def
        spec_replace_def q_def[symmetric]
      by (simp only: True une if_True if_False sum.case)
    have spec: "spec_select s e dur b (layer, i) =
      (if spec_replace b layer q
       then \<lparr>best_layer = layer, best_segment = i, best_iou = q\<rparr>
       else b)"
      by (simp add: spec_select_def sb spec_iou_overlap[OF True] q_def[symmetric] Let_def)
    show ?thesis unfolding w_def[symmetric] code spec using q assms by simp
  next
    case False
    have code: "segment_body s e layer w i b = Inr b"
      unfolding segment_body_def Let_def a_def[symmetric] c_def[symmetric]
      by (simp only: False if_False)
    have spec: "spec_select s e dur b (layer, i) = b"
      using assms
      by (simp add: spec_select_def sb spec_iou_disjoint[OF False] spec_replace_def Let_def)
    show ?thesis unfolding w_def[symmetric] code spec using assms by simp
  qed
qed

lemma layer_body_spec:
  assumes "0 \<le> best_iou b"
  shows "layer_body s e dur layer b
           = Inr (foldl (spec_select s e dur) b (map (Pair layer) [0..<2 ^ layer]))
         \<and> 0 \<le> best_iou (foldl (spec_select s e dur) b (map (Pair layer) [0..<2 ^ layer]))"
proof -
  have td: "truediv dur (real ((2::nat) ^ layer)) = Inr (dur / 2 ^ layer)"
    by (simp add: truediv_def)
  have "for_loop [0..<2 ^ layer] (segment_body s e layer (dur / 2 ^ layer)) b
          = Inr (foldl (\<lambda>st i. spec_select s e dur st (layer, i)) b [0..<2 ^ layer])
        \<and> nonneg_iou (foldl (\<lambda>st i. spec_select s e dur st (layer, i)) b [0..<2 ^ layer])"
    by (rule for_loop_foldl) (use assms segment_body_spec in \<open>auto simp: nonneg_iou_def\<close>)
  then show ?thesis
    unfolding layer_body_def Let_def td by (simp add: foldl_map nonneg_iou_def)
qed

lemma compute_layer_segment_eq_resolver:
  "compute_layer_segment start_time end_time video_duration_min
     = Inr (spec_resolver start_time end_time video_duration_min)"
proof -
  let ?dur = "video_duration_min * 60"
  let ?init = "\<lparr>best_layer = 0, best_segment = 0, best_iou = 0\<rparr>"
  let ?f = "\<lambda>st layer. foldl (spec_select start_time end_time ?dur) st (map (Pair layer) [0..<2 ^ layer])"
  have "for_loop [0..<4 + 1] (layer_body start_time end_time ?dur) ?init
          = Inr (foldl ?f ?init [0..<4 + 1]) \<and> nonneg_iou (foldl ?f ?init [0..<4 + 1])"
    by (rule for_loop_foldl) (use layer_body_spec in \<open>auto simp: nonneg_iou_def\<close>)
  moreover have "foldl ?f ?init [0..<4 + 1]
      = foldl (spec_select start_time end_time ?dur) ?init spec_candidates"
    unfolding spec_candidates_def foldl_concat_nested foldl_map by simp
  ultimately show ?thesis
    unfolding compute_layer_segment_def spec_resolver_def Let_def by simp
qed

text \<open>
  C2: \<open>compute_layer_segment\<close> visits the layers \<open>0\<close> to \<open>4\<close> and in each layer the
  segments \<open>0\<close> to \<open>2^layer - 1\<close>, both ascending, scores each candidate by the overlap ratio
  \<open>max(0, min(end, seg_end) - max(start, seg_start)) / (max(end, seg_end) - min(start, seg_start))\<close>
  (zero without overlap), replaces the best so far exactly when the candidate's ratio is
  strictly greater, or is at least \<open>0.7\<close> at a strictly greater layer, and returns the last
  best pair. It never raises.
\<close>

theorem compute_layer_segment_refines_spec:
  "compute_layer_segment start_time end_time video_duration_min
     = Inr (spec_resolver start_time end_time video_duration_min)"
  by (rule compute_layer_segment_eq_resolver)

text \<open>
  Two runs of the search on a one-minute video. The interval \<open>[0, 30]\<close> is the first
  half, layer \<open>1\<close> segment \<open>0\<close>. The interval \<open>[0, 21.3]\<close> overlaps that segment with
  ratio \<open>0.71\<close> and the first quarter with ratio \<open>15/21.3\<close>, smaller but at least \<open>0.7\<close>:
  the finer segment replaces the coarser one.
\<close>

theorem compute_layer_segment_refines_spec_witness:
  "compute_layer_segment 0 30 1 = Inr (1, 0) \<and> compute_layer_segment 0 21.3 1 = Inr (2, 0)"
proof -
  have a: "spec_resolver 0 30 1 = (1, 0)" by code_simp
  have b: "spec_resolver 0 21.3 1 = (2, 0)" by code_simp
  show ?thesis
    unfolding compute_layer_segment_refines_spec a b by simp
qed

subsection \<open>No overlap, no division by zero\<close>

lemma for_loop_unchanged:
  assumes "\<And>x. x \<in> set xs \<Longrightarrow> body x st = Inr st"
  shows "for_loop xs body st = Inr st"
  using assms by (induction xs) simp_all

lemma segment_body_total: "\<exists>b'. segment_body s e layer w i b = Inr b'"
proof (cases "min e ((real i + 1) * w) > max s (real i * w)")
  case True
  from union_ge_intersection[OF True]
  have "max e ((real i + 1) * w) - min s (real i * w) \<noteq> 0" by linarith
  then show ?thesis
    unfolding segment_body_def Let_def truediv_def
    by (simp only: True if_True if_False sum.case) (simp split: if_splits)
next
  case False
  then show ?thesis
    unfolding segment_body_def Let_def by (simp only: if_False) simp
qed

lemma positive_overlap_bounds:
  "positive_overlap s e dur (layer, i) \<longleftrightarrow>
     min e ((real i + 1) * (dur / 2 ^ layer)) - max s (real i * (dur / 2 ^ layer)) > 0"
  by (simp add: positive_overlap_def segment_bounds_def Let_def)

lemma segment_body_no_overlap:
  assumes "\<not> positive_overlap s e dur (layer, i)"
  shows "segment_body s e layer (dur / 2 ^ layer) i b = Inr b"
proof -
  have "\<not> min e ((real i + 1) * (dur / 2 ^ layer)) > max s (real i * (dur / 2 ^ layer))"
    using assms unfolding positive_overlap_bounds by linarith
  then show ?thesis
    unfolding segment_body_def Let_def by (simp only: if_False)
qed

lemma layer_body_no_overlap:
  assumes "\<And>i. i < 2 ^ layer \<Longrightarrow> \<not> positive_overlap s e dur (layer, i)"
  shows "layer_body s e dur layer b = Inr b"
proof -
  have td: "truediv dur (real ((2::nat) ^ layer)) = Inr (dur / 2 ^ layer)"
    by (simp add: truediv_def)
  have "for_loop [0..<2 ^ layer] (segment_body s e layer (dur / 2 ^ layer)) b = Inr b"
    by (rule for_loop_unchanged) (use assms segment_body_no_overlap in auto)
  then show ?thesis unfolding layer_body_def Let_def td by simp
qed

lemma set_spec_candidates:
  "(layer, i) \<in> set spec_candidates \<longleftrightarrow> layer < 5 \<and> i < 2 ^ layer"
  by (force simp: spec_candidates_def)

lemma compute_layer_segment_no_overlap:
  assumes "\<forall>c \<in> set spec_candidates. \<not> positive_overlap s e (d * 60) c"
  shows "compute_layer_segment s e d = Inr (0, 0)"
proof -
  have "for_loop [0..<4 + 1] (layer_body s e (d * 60))
          \<lparr>best_layer = 0, best_segment = 0, best_iou = 0\<rparr>
        = Inr \<lparr>best_layer = 0, best_segment = 0, best_iou = 0\<rparr>"
  proof (rule for_loop_unchanged)
    fix layer assume "layer \<in> set [0..<4 + 1]"
    then have "layer < 5" by simp
    then have "\<And>i. i < 2 ^ layer \<Longrightarrow> \<not> positive_overlap s e (d * 60) (layer, i)"
      using assms set_spec_candidates by blast
    then show "layer_body s e (d * 60) layer \<lparr>best_layer = 0, best_segment = 0, best_iou = 0\<rparr>
        = Inr \<lparr>best_layer = 0, best_segment = 0, best_iou = 0\<rparr>"
      by (rule layer_body_no_overlap)
  qed
  then show ?thesis
    unfolding compute_layer_segment_def Let_def by simp
qed

lemma degenerate_no_overlap:
  assumes "e \<le> s"
  shows "\<not> positive_overlap s e dur c"
proof -
  obtain layer i where c: "c = (layer, i)" by (cases c)
  have "\<not> min e y - max s x > 0" for x y :: real using assms by linarith
  then show ?thesis
    unfolding c positive_overlap_bounds .
qed

lemma zero_duration_no_overlap: "\<not> positive_overlap s e 0 c"
proof -
  obtain layer i where c: "c = (layer, i)" by (cases c)
  show ?thesis unfolding c positive_overlap_bounds by simp
qed

text \<open>
  C8: when no candidate segment of any layer has an intersection of strictly positive
  length with the interval, \<open>compute_layer_segment\<close> returns \<open>(0, 0)\<close> without raising;
  so it does for every degenerate interval \<open>end \<le> start\<close> and for duration \<open>0\<close>.
\<close>

theorem compute_layer_segment_default:
  "((\<forall>c \<in> set spec_candidates.
       \<not> positive_overlap start_time end_time (video_duration_min * 60) c) \<longrightarrow>
      compute_layer_segment start_time end_time video_duration_min = Inr (0, 0)) \<and>
   (end_time \<le> start_time \<longrightarrow>
      compute_layer_segment start_time end_time video_duration_min = Inr (0, 0)) \<and>
   (video_duration_min = 0 \<longrightarrow>
      compute_layer_segment start_time end_time video_duration_min = Inr (0, 0))"
proof (intro conjI impI)
  assume "\<forall>c \<in> set spec_candidates.
       \<not> positive_overlap start_time end_time (video_duration_min * 60) c"
  then show "compute_layer_segment start_time end_time video_duration_min = Inr (0, 0)"
    by (rule compute_layer_segment_no_overlap)
next
  assume "end_time \<le> start_time"
  then show "compute_layer_segment start_time end_time video_duration_min = Inr (0, 0)"
    by (intro compute_layer_segment_no_overlap ballI degenerate_no_overlap)
next
  assume "video_duration_min = 0"
  then show "compute_layer_segment start_time end_time video_duration_min = Inr (0, 0)"
    by (intro compute_layer_segment_no_overlap ballI) (simp add: zero_duration_no_overlap)
qed

theorem compute_layer_segment_default_witness:
  "list_all (\<lambda>c. \<not> positive_overlap 70 80 (1 * 60) c) spec_candidates \<and>
   compute_layer_segment 70 80 1 = Inr (0, 0) \<and>
   (15::real) \<le> 19 \<and> compute_layer_segment 19 15 1 = Inr (0, 0) \<and>
   compute_layer_segment 15 19 0 = Inr (0, 0)"
proof -
  have h: "list_all (\<lambda>c. \<not> positive_overlap 70 80 (1 * 60) c) spec_candidates"
    by code_simp
  then have h': "\<forall>c \<in> set spec_candidates. \<not> positive_overlap 70 80 (1 * 60) c"
    by (simp only: list_all_iff)
  show ?thesis
    using h h' compute_layer_segment_default[of 70 80 1]
      compute_layer_segment_default[of 19 15 1]
      compute_layer_segment_default[of 15 19 0]
    by simp
qed

text \<open>
  C9: \<open>compute_layer_segment\<close> returns on all real inputs and never divides by zero. The
  loop body divides only under the guard \<open>intersection_end > intersection_start\<close>; there
  \<open>union \<ge> intersection > 0\<close>, so the division succeeds; without the guard the body
  leaves the best candidate as it is.
\<close>

theorem compute_layer_segment_division_safe:
  "(\<exists>p. compute_layer_segment start_time end_time video_duration_min = Inr p) \<and>
   (\<exists>b'. segment_body start_time end_time layer segment_duration segment_id b = Inr b') \<and>
   (let segment_start = real segment_id * segment_duration;
        segment_end = (real segment_id + 1) * segment_duration;
        intersection = min end_time segment_end - max start_time segment_start;
        uni = max end_time segment_end - min start_time segment_start
    in (min end_time segment_end > max start_time segment_start \<longrightarrow>
          0 < intersection \<and> intersection \<le> uni \<and>
          truediv intersection uni = Inr (intersection / uni)) \<and>
       (\<not> min end_time segment_end > max start_time segment_start \<longrightarrow>
          segment_body start_time end_time layer segment_duration segment_id b = Inr b))"
proof -
  have "compute_layer_segment start_time end_time video_duration_min
          = Inr (spec_resolver start_time end_time video_duration_min)"
    by (rule compute_layer_segment_eq_resolver)
  then have total: "\<exists>p. compute_layer_segment start_time end_time video_duration_min = Inr p"
    by blast
  have guard: "0 < min e c - max s a \<and> min e c - max s a \<le> max e c - min s a \<and>
      truediv (min e c - max s a) (max e c - min s a)
        = Inr ((min e c - max s a) / (max e c - min s a))"
    if "min e c > max s a" for s e a c :: real
  proof -
    from union_ge_intersection[OF that]
    have "max e c - min s a \<ge> min e c - max s a" "min e c - max s a > 0" .
    moreover from this have "max e c - min s a \<noteq> 0" by linarith
    ultimately show ?thesis by (simp only: truediv_def if_False simp_thms)
  qed
  have skip: "segment_body s e l w i st = Inr st"
    if "\<not> min e ((real i + 1) * w) > max s (real i * w)" for s e l w i st
    unfolding segment_body_def Let_def using that by (simp only: if_False)
  show ?thesis
    unfolding Let_def using total segment_body_total guard skip by blast
qed

theorem compute_layer_segment_division_safe_witness:
  "min (30::real) ((real 0 + 1) * 30) > max 0 (real 0 * 30) \<and>
   truediv (min 30 ((real 0 + 1) * 30) - max 0 (real 0 * 30))
           (max 30 ((real 0 + 1) * 30) - min 0 (real 0 * 30)) = Inr 1 \<and>
   \<not> min (30::real) ((real 1 + 1) * 30) > max 0 (real 1 * 30) \<and>
   segment_body 0 30 1 30 1 \<lparr>best_layer = 0, best_segment = 0, best_iou = 0\<rparr>
     = Inr \<lparr>best_layer = 0, best_segment = 0, best_iou = 0\<rparr>"
  using compute_layer_segment_division_safe[of 0 30 1 1 30 0
      "\<lparr>best_layer = 0, best_segment = 0, best_iou = 0\<rparr>"]
    compute_layer_segment_division_safe[of 0 30 1 1 30 1
      "\<lparr>best_layer = 0, best_segment = 0, best_iou = 0\<rparr>"]
  by (simp add: Let_def)

section \<open>The scorers\<close>

lemma py_int_error: "py_int s = Inl e \<Longrightarrow> e = ValueError"
  by (auto simp: py_int_def split: list.splits option.splits if_splits)







lemma evaluate_sampling_rate_value:
  "evaluate_sampling_rate s =
     Inr (case py_int s of
            Inl e \<Rightarrow> 0
          | Inr rate \<Rightarrow>
              if rate \<le> 0 then 0 else if rate \<le> 5 then 1 else if rate \<le> 10 then 0.8
              else if rate \<le> 30 then 0.5 else 0.2)"
  by (auto simp: evaluate_sampling_rate_def split: sum.splits error.splits dest: py_int_error)


text \<open>
  C6: \<open>evaluate_sampling_rate\<close> parses its argument as an integer rate and returns
  \<open>0.0\<close> for \<open>rate \<le> 0\<close>, \<open>1.0\<close> for \<open>1 \<le> rate \<le> 5\<close>, \<open>0.8\<close> for \<open>6 \<le> rate \<le> 10\<close>,
  \<open>0.5\<close> for \<open>11 \<le> rate \<le> 30\<close>, \<open>0.2\<close> for \<open>rate > 30\<close>, and \<open>0.0\<close> when the argument
  does not parse as an integer.
\<close>

theorem evaluate_sampling_rate_thresholds:
  "(py_int s = Inr rate \<longrightarrow>
      (rate \<le> 0 \<longrightarrow> evaluate_sampling_rate s = Inr 0) \<and>
      (1 \<le> rate \<and> rate \<le> 5 \<longrightarrow> evaluate_sampling_rate s = Inr 1) \<and>
      (6 \<le> rate \<and> rate \<le> 10 \<longrightarrow> evaluate_sampling_rate s = Inr 0.8) \<and>
      (11 \<le> rate \<and> rate \<le> 30 \<longrightarrow> evaluate_sampling_rate s = Inr 0.5) \<and>
      (30 < rate \<longrightarrow> evaluate_sampling_rate s = Inr 0.2)) \<and>
   ((\<exists>e. py_int s = Inl e) \<longrightarrow> evaluate_sampling_rate s = Inr 0)"
  unfolding evaluate_sampling_rate_value by auto

theorem evaluate_sampling_rate_thresholds_witness:
  "py_int ''5'' = Inr 5 \<and> evaluate_sampling_rate ''5'' = Inr 1 \<and>
   py_int ''6'' = Inr 6 \<and> evaluate_sampling_rate ''6'' = Inr 0.8 \<and>
   py_int ''10'' = Inr 10 \<and> evaluate_sampling_rate ''10'' = Inr 0.8 \<and>
   py_int ''11'' = Inr 11 \<and> evaluate_sampling_rate ''11'' = Inr 0.5 \<and>
   py_int ''30'' = Inr 30 \<and> evaluate_sampling_rate ''30'' = Inr 0.5 \<and>
   py_int ''31'' = Inr 31 \<and> evaluate_sampling_rate ''31'' = Inr 0.2 \<and>
   py_int ''0'' = Inr 0 \<and> evaluate_sampling_rate ''0'' = Inr 0 \<and>
   py_int ''-1'' = Inr (- 1) \<and> evaluate_sampling_rate ''-1'' = Inr 0 \<and>
   py_int ''fast'' = Inl ValueError \<and> evaluate_sampling_rate ''fast'' = Inr 0"
proof -
  have p5: "py_int ''5'' = Inr 5" by code_simp
  have p6: "py_int ''6'' = Inr 6" by code_simp
  have p10: "py_int ''10'' = Inr 10" by code_simp
  have p11: "py_int ''11'' = Inr 11" by code_simp
  have p30: "py_int ''30'' = Inr 30" by code_simp
  have p31: "py_int ''31'' = Inr 31" by code_simp
  have p0: "py_int ''0'' = Inr 0" by code_simp
  have pm1: "py_int ''-1'' = Inr (- 1)" by code_simp
  have pf: "py_int ''fast'' = Inl ValueError" by code_simp
  show ?thesis
    using evaluate_sampling_rate_thresholds[of "''5''" 5] p5
      evaluate_sampling_rate_thresholds[of "''6''" 6] p6
      evaluate_sampling_rate_thresholds[of "''10''" 10] p10
      evaluate_sampling_rate_thresholds[of "''11''" 11] p11
      evaluate_sampling_rate_thresholds[of "''30''" 30] p30
      evaluate_sampling_rate_thresholds[of "''31''" 31] p31
      evaluate_sampling_rate_thresholds[of "''0''" 0] p0
      evaluate_sampling_rate_thresholds[of "''-1''" "- 1"] pm1
      evaluate_sampling_rate_thresholds[of "''fast''" 0] pf
    by simp
qed




text \<open>
  C5: \<open>check_format\<close> returns \<open>0.6 + 0.4 * min(1.0, L/200)\<close>, a value in \<open>[0.6, 1.0]\<close>,
  when both the think tags and the grounding tags occur as substrings, \<open>L\<close> being the
  length of the trimmed extracted thinking content; \<open>0.3\<close> when only the think tags
  occur; \<open>0.5\<close> when only the grounding tags occur; \<open>0.0\<close> when neither pair occurs.
\<close>

theorem check_format_cases:
  "(py_in ''<think>'' s \<and> py_in ''</think>'' s \<and>
    py_in ''<grounding>'' s \<and> py_in ''</grounding>'' s \<longrightarrow>
      check_format s = 0.6 + 0.4 * min 1.0 (real (thinking_length s) / 200) \<and>
      0.6 \<le> check_format s \<and> check_format s \<le> 1.0) \<and>
   (py_in ''<think>'' s \<and> py_in ''</think>'' s \<and>
    \<not> (py_in ''<grounding>'' s \<and> py_in ''</grounding>'' s) \<longrightarrow> check_format s = 0.3) \<and>
   (\<not> (py_in ''<think>'' s \<and> py_in ''</think>'' s) \<and>
    py_in ''<grounding>'' s \<and> py_in ''</grounding>'' s \<longrightarrow> check_format s = 0.5) \<and>
   (\<not> (py_in ''<think>'' s \<and> py_in ''</think>'' s) \<and>
    \<not> (py_in ''<grounding>'' s \<and> py_in ''</grounding>'' s) \<longrightarrow> check_format s = 0.0)"
proof -
  have q: "(case search_think s of None \<Rightarrow> 0
            | Some content \<Rightarrow> min 1 (real (length (py_strip content)) / 200))
           = min 1 (real (thinking_length s) / 200)"
    by (simp add: thinking_length_def split: option.splits)
  have r: "0 \<le> min 1 (real (thinking_length s) / 200)"
          "min 1 (real (thinking_length s) / 200) \<le> 1"
    by simp_all
  show ?thesis
    unfolding check_format_def Let_def q using r by auto
qed

theorem check_format_cases_witness:
  "py_in ''<think>'' ''<think>short</think><grounding>2, 1, 3</grounding>'' \<and>
   py_in ''</think>'' ''<think>short</think><grounding>2, 1, 3</grounding>'' \<and>
   py_in ''<grounding>'' ''<think>short</think><grounding>2, 1, 3</grounding>'' \<and>
   py_in ''</grounding>'' ''<think>short</think><grounding>2, 1, 3</grounding>'' \<and>
   thinking_length ''<think>short</think><grounding>2, 1, 3</grounding>'' = 5 \<and>
   check_format ''<think>short</think><grounding>2, 1, 3</grounding>'' = 0.61 \<and>
   check_format ''<think>short</think>'' = 0.3 \<and>
   check_format ''<grounding>2, 1, 3</grounding>'' = 0.5 \<and>
   check_format ''no tags'' = 0"
proof -
  let ?both = "''<think>short</think><grounding>2, 1, 3</grounding>''"
  have b: "py_in ''<think>'' ?both" "py_in ''</think>'' ?both"
    "py_in ''<grounding>'' ?both" "py_in ''</grounding>'' ?both"
    by code_simp+
  have l: "thinking_length ?both = 5" by code_simp
  have t: "py_in ''<think>'' ''<think>short</think>''" "py_in ''</think>'' ''<think>short</think>''"
    "\<not> py_in ''<grounding>'' ''<think>short</think>''"
    by code_simp+
  have g: "\<not> py_in ''<think>'' ''<grounding>2, 1, 3</grounding>''"
    "py_in ''<grounding>'' ''<grounding>2, 1, 3</grounding>''"
    "py_in ''</grounding>'' ''<grounding>2, 1, 3</grounding>''"
    by code_simp+
  have n: "\<not> py_in ''<think>'' ''no tags''" "\<not> py_in ''<grounding>'' ''no tags''"
    by code_simp+
  show ?thesis
    using check_format_cases[of ?both] check_format_cases[of "''<think>short</think>''"]
      check_format_cases[of "''<grounding>2, 1, 3</grounding>''"]
      check_format_cases[of "''no tags''"] b l t g n
    by simp
qed

section \<open>The patterns find what they describe\<close>

lemma find_first_sound:
  "find_first sub s = Some (before, after) \<Longrightarrow> s = before @ sub @ after"
proof (induction s arbitrary: before)
  case Nil
  then show ?case by (simp split: if_splits)
next
  case (Cons c cs)
  show ?case
  proof (cases "prefix sub (c # cs)")
    case True
    with Cons.prems have ba: "before = []" "after = drop (length sub) (c # cs)"
      by simp_all
    from True obtain zs where zs: "c # cs = sub @ zs" by (auto simp: prefix_def)
    show ?thesis unfolding ba zs by simp
  next
    case False
    with Cons.prems obtain b' where b': "find_first sub cs = Some (b', after)" "before = c # b'"
      by (auto split: option.splits)
    with Cons.IH[of b'] show ?thesis by simp
  qed
qed

lemma find_first_None: "find_first sub s = None \<longleftrightarrow> \<not> sublist sub s"
proof (induction s)
  case Nil
  then show ?case by simp
next
  case (Cons c cs)
  then show ?case
    by (auto simp: sublist_Cons_right split: option.splits)
qed

lemma search_think_sound:
  assumes "search_think s = Some content"
  shows "\<exists>before after. s = before @ ''<think>'' @ content @ ''</think>'' @ after"
proof -
  from assms obtain before rest after where
    a: "find_first ''<think>'' s = Some (before, rest)" and
    b: "find_first ''</think>'' rest = Some (content, after)"
    by (auto simp: search_think_def split: option.splits)
  from find_first_sound[OF a] find_first_sound[OF b] show ?thesis by blast
qed

lemma match_grounding_sound:
  assumes "match_grounding s = Some content"
  shows "\<exists>after. s = ''<grounding>'' @ content @ ''</grounding>'' @ after
           \<and> content \<noteq> [] \<and> CHR ''<'' \<notin> set content"
proof -
  let ?P = "\<lambda>c. c \<noteq> CHR ''<''"
  from assms have pre: "prefix ''<grounding>'' s"
    by (simp add: match_grounding_def split: if_splits)
  then obtain rest where s: "s = ''<grounding>'' @ rest" by (auto simp: prefix_def)
  then have rest: "drop (length ''<grounding>'') s = rest" by simp
  from assms pre have c: "content = takeWhile ?P rest" "content \<noteq> []"
    and post: "prefix ''</grounding>'' (dropWhile ?P rest)"
    unfolding match_grounding_def rest Let_def by (auto split: if_splits)
  from post obtain after where "dropWhile ?P rest = ''</grounding>'' @ after"
    by (auto simp: prefix_def)
  then have "rest = content @ ''</grounding>'' @ after"
    using takeWhile_dropWhile_id[of ?P rest] c(1) by simp
  moreover have "CHR ''<'' \<notin> set content"
    unfolding c(1) using set_takeWhileD by fastforce
  ultimately show ?thesis using s c(2) by auto
qed

lemma match_grounding_complete:
  assumes "content \<noteq> []" "CHR ''<'' \<notin> set content"
  shows "match_grounding (''<grounding>'' @ content @ ''</grounding>'' @ after) = Some content"
proof -
  let ?P = "\<lambda>c. c \<noteq> CHR ''<''"
  let ?rest = "content @ ''</grounding>'' @ after"
  have all: "\<And>x. x \<in> set content \<Longrightarrow> ?P x" using assms(2) by auto
  have tw: "takeWhile ?P ?rest = content"
    using takeWhile_append2[of content ?P "''</grounding>'' @ after"] all by simp
  have dw: "dropWhile ?P ?rest = ''</grounding>'' @ after"
    using dropWhile_append2[of content ?P "''</grounding>'' @ after"] all by simp
  have d: "drop (length ''<grounding>'') (''<grounding>'' @ ?rest) = ?rest" by simp
  have p: "prefix ''<grounding>'' (''<grounding>'' @ ?rest)" by simp
  show ?thesis
    unfolding match_grounding_def Let_def d tw dw using p assms(1) by simp
qed

lemma search_grounding_sound:
  "search_grounding s = Some content \<Longrightarrow> grounding_pattern_occurs s"
proof (induction s)
  case Nil
  then show ?case by simp
next
  case (Cons c cs)
  show ?case
  proof (cases "match_grounding (c # cs)")
    case None
    with Cons have "grounding_pattern_occurs cs" by simp
    then obtain before content' after where
      "cs = before @ ''<grounding>'' @ content' @ ''</grounding>'' @ after"
      "content' \<noteq> []" "CHR ''<'' \<notin> set content'"
      unfolding grounding_pattern_occurs_def by blast
    then have "c # cs = (c # before) @ ''<grounding>'' @ content' @ ''</grounding>'' @ after
        \<and> content' \<noteq> [] \<and> CHR ''<'' \<notin> set content'" by simp
    then show ?thesis unfolding grounding_pattern_occurs_def by blast
  next
    case (Some content')
    from match_grounding_sound[OF Some] obtain after where
      "c # cs = [] @ ''<grounding>'' @ content' @ ''</grounding>'' @ after
        \<and> content' \<noteq> [] \<and> CHR ''<'' \<notin> set content'" by auto
    then show ?thesis unfolding grounding_pattern_occurs_def by blast
  qed
qed

lemma search_grounding_complete_aux:
  assumes "content \<noteq> []" "CHR ''<'' \<notin> set content"
  shows "search_grounding (before @ ''<grounding>'' @ content @ ''</grounding>'' @ after) \<noteq> None"
proof (induction before)
  case Nil
  have "search_grounding (''<grounding>'' @ content @ ''</grounding>'' @ after)
      = Some content"
    using match_grounding_complete[OF assms, of after] by simp
  then show ?case by simp
next
  case (Cons c before)
  then show ?case by (simp split: option.splits)
qed

lemma search_grounding_None_iff:
  "search_grounding s = None \<longleftrightarrow> \<not> grounding_pattern_occurs s"
proof
  assume "search_grounding s = None"
  show "\<not> grounding_pattern_occurs s"
  proof
    assume "grounding_pattern_occurs s"
    then obtain before content after where
      "s = before @ ''<grounding>'' @ content @ ''</grounding>'' @ after"
      "content \<noteq> []" "CHR ''<'' \<notin> set content"
      unfolding grounding_pattern_occurs_def by blast
    with search_grounding_complete_aux[of content before after]
    have "search_grounding s \<noteq> None" by simp
    with \<open>search_grounding s = None\<close> show False by simp
  qed
next
  assume "\<not> grounding_pattern_occurs s"
  then show "search_grounding s = None"
    using search_grounding_sound[of s] by (cases "search_grounding s") auto
qed

section \<open>The aggregator\<close>

lemma video_grounding_no_match:
  assumes "search_grounding predict_str = None \<or> search_grounding ground_truth = None"
  shows "video_grounding predict_str ground_truth = 0.1 * check_format predict_str"
  using assms by (auto simp: video_grounding_def Let_def split: option.splits)

lemma video_grounding_matched:
  assumes "check_format predict_str \<noteq> 0"
    and "search_grounding predict_str = Some pred_content"
    and "search_grounding ground_truth = Some gt_content"
  shows "video_grounding predict_str ground_truth =
     (case video_grounding_body (check_format predict_str) pred_content gt_content of
        Inl e \<Rightarrow> 0.1 * check_format predict_str
      | Inr score \<Rightarrow> score)"
  using assms by (simp add: video_grounding_def Let_def)

text \<open>
  C7: when \<open>check_format(predict_str) > 0\<close> and both texts yield a grounding content, but
  one of the contents does not split on \<open>,\<close> into exactly three parts,
  \<open>video_grounding\<close> returns exactly \<open>0.2 * format_score\<close>, which no value of the
  weighted formula with non-negative sub-scores equals.
\<close>

theorem video_grounding_wrong_field_count:
  assumes "check_format predict_str > 0"
    and "search_grounding predict_str = Some pred_content"
    and "search_grounding ground_truth = Some gt_content"
    and "length (py_split CHR '','' pred_content) \<noteq> 3
         \<or> length (py_split CHR '','' gt_content) \<noteq> 3"
  shows "video_grounding predict_str ground_truth = 0.2 * check_format predict_str \<and>
         (\<forall>grounding_score sampling_score. 0 \<le> grounding_score \<and> 0 \<le> sampling_score \<longrightarrow>
            video_grounding predict_str ground_truth \<noteq>
              0.3 * check_format predict_str + 0.5 * grounding_score + 0.2 * sampling_score)"
proof -
  have ne: "check_format predict_str \<noteq> 0" using assms(1) by simp
  have body: "video_grounding_body (check_format predict_str) pred_content gt_content
      = Inr (0.2 * check_format predict_str)"
    using assms(4) by (auto simp: video_grounding_body_def Let_def)
  have v: "video_grounding predict_str ground_truth = 0.2 * check_format predict_str"
    unfolding video_grounding_matched[OF ne assms(2) assms(3)] body by simp
  have "0.2 * check_format predict_str
      < 0.3 * check_format predict_str + 0.5 * g + 0.2 * r" if "0 \<le> g" "0 \<le> r" for g r :: real
    using that assms(1) by simp
  then show ?thesis unfolding v by (metis less_irrefl)
qed

theorem video_grounding_wrong_field_count_witness:
  "check_format ''<grounding>2, 1</grounding>'' > 0 \<and>
   search_grounding ''<grounding>2, 1</grounding>'' = Some ''2, 1'' \<and>
   search_grounding ''<grounding>2, 1, 0</grounding>'' = Some ''2, 1, 0'' \<and>
   length (py_split CHR '','' ''2, 1'') \<noteq> 3 \<and>
   video_grounding ''<grounding>2, 1</grounding>'' ''<grounding>2, 1, 0</grounding>''
     = 0.2 * check_format ''<grounding>2, 1</grounding>'' \<and>
   check_format ''<grounding>2, 1</grounding>'' = 0.5"
proof -
  have h1: "check_format ''<grounding>2, 1</grounding>'' > 0" by code_simp
  have h2: "search_grounding ''<grounding>2, 1</grounding>'' = Some ''2, 1''" by code_simp
  have h3: "search_grounding ''<grounding>2, 1, 0</grounding>'' = Some ''2, 1, 0''" by code_simp
  have h4: "length (py_split CHR '','' ''2, 1'') \<noteq> 3" by code_simp
  have h5: "check_format ''<grounding>2, 1</grounding>'' = 0.5" by code_simp
  from h4 have h4': "length (py_split CHR '','' ''2, 1'') \<noteq> 3
      \<or> length (py_split CHR '','' ''2, 1, 0'') \<noteq> 3" ..
  from video_grounding_wrong_field_count[OF h1 h2 h3 h4'] h1 h2 h3 h4 h5
  show ?thesis by blast
qed



text \<open>
  C10: a text in which no substring matches \<open><grounding>\<close>, one or more characters other
  than \<open><\<close>, \<open></grounding>\<close> has no grounding content, also when both tag markers occur
  in it: \<open>video_grounding\<close> then returns \<open>0.1 * format_score\<close>. For the prediction
  \<open><grounding></grounding>\<close> the format score is \<open>0.5\<close> and the result \<open>0.05\<close>.
\<close>

theorem video_grounding_empty_grounding_content:
  "(\<not> grounding_pattern_occurs predict_str \<or> \<not> grounding_pattern_occurs ground_truth \<longrightarrow>
      video_grounding predict_str ground_truth = 0.1 * check_format predict_str) \<and>
   py_in ''<grounding>'' ''<grounding></grounding>'' \<and>
   py_in ''</grounding>'' ''<grounding></grounding>'' \<and>
   \<not> grounding_pattern_occurs ''<grounding></grounding>'' \<and>
   check_format ''<grounding></grounding>'' = 0.5 \<and>
   video_grounding ''<grounding></grounding>'' ground_truth = 0.05"
proof (intro conjI impI)
  assume "\<not> grounding_pattern_occurs predict_str \<or> \<not> grounding_pattern_occurs ground_truth"
  then have "search_grounding predict_str = None \<or> search_grounding ground_truth = None"
    unfolding search_grounding_None_iff .
  then show "video_grounding predict_str ground_truth = 0.1 * check_format predict_str"
    by (rule video_grounding_no_match)
next
  show "py_in ''<grounding>'' ''<grounding></grounding>''" by code_simp
  show "py_in ''</grounding>'' ''<grounding></grounding>''" by code_simp
  have none: "search_grounding ''<grounding></grounding>'' = None" by code_simp
  then show "\<not> grounding_pattern_occurs ''<grounding></grounding>''"
    by (rule iffD1[OF search_grounding_None_iff])
  show f: "check_format ''<grounding></grounding>'' = 0.5" by code_simp
  show "video_grounding ''<grounding></grounding>'' ground_truth = 0.05"
    unfolding video_grounding_no_match[of "''<grounding></grounding>''" ground_truth,
        OF disjI1[OF none]] f
    by simp
qed

theorem video_grounding_empty_grounding_content_witness:
  "\<not> grounding_pattern_occurs ''<grounding></grounding>'' \<and>
   video_grounding ''<grounding></grounding>'' ''<grounding>2, 1, 0</grounding>''
     = 0.1 * check_format ''<grounding></grounding>'' \<and>
   \<not> grounding_pattern_occurs ''<grounding>'' \<and>
   video_grounding ''<grounding>2, 1, 3</grounding>'' ''<grounding>''
     = 0.1 * check_format ''<grounding>2, 1, 3</grounding>''"
proof -
  have "search_grounding ''<grounding>'' = None" by code_simp
  then have n: "\<not> grounding_pattern_occurs ''<grounding>''"
    by (rule iffD1[OF search_grounding_None_iff])
  from video_grounding_empty_grounding_content[of "''<grounding></grounding>''"
      "''<grounding>2, 1, 0</grounding>''"]
    video_grounding_empty_grounding_content[of "''<grounding>2, 1, 3</grounding>''"
      "''<grounding>''"] n
  show ?thesis by blast
qed

text \<open>
  C1: \<open>video_grounding\<close> is documented to return a score between \<open>0\<close> and \<open>1\<close>. For a
  predicted segment far outside the ground-truth layer the wrap-around distance of
  \<open>evaluate_grounding\<close> is negative, its score is \<open>38.8\<close>, and the final score \<open>19.75\<close>.
\<close>

theorem video_grounding_out_of_range:
  "evaluate_grounding [''2'', ''100'', ''1''] [''2'', ''1'', ''0''] = Inr 38.8 \<and>
   video_grounding ''<grounding>2, 100, 1</grounding>'' ''<grounding>2, 1, 0</grounding>'' = 19.75 \<and>
   \<not> video_grounding ''<grounding>2, 100, 1</grounding>'' ''<grounding>2, 1, 0</grounding>'' \<le> 1"
proof -
  have a: "evaluate_grounding [''2'', ''100'', ''1''] [''2'', ''1'', ''0''] = Inr 38.8"
    by code_simp
  have b: "video_grounding ''<grounding>2, 100, 1</grounding>'' ''<grounding>2, 1, 0</grounding>''
      = 19.75"
    by code_simp
  show ?thesis unfolding b using a by simp
qed

end
